theory Spec2Isabelle
  imports Main
begin

section \<open>The offline shell cache of the frequency-shift PWA (static/sw.js)\<close>

text \<open>
  The service worker has three event handlers: \<open>install\<close>, \<open>activate\<close> and
  \<open>fetch\<close>. Each handler is embedded as a function on an explicit world: the
  origin's cache storage and a trace of the calls made to the host (the network and the
  Cache API). The host operations the handlers call (\<open>fetch\<close>, \<open>caches.open\<close>,
  \<open>caches.match\<close>, \<open>caches.keys\<close>, \<open>caches.delete\<close>, \<open>cache.put\<close>,
  \<open>cache.addAll\<close>) belong to the browser; they are modelled after the Service Worker
  specification, in the part the handlers depend on.

  A promise handed to \<open>event.waitUntil\<close> or \<open>event.respondWith\<close> is run to its end
  inside the handler: the handler's outcome is the outcome of that promise. The fetch
  handler also starts a promise that it hands to nobody, the write
  \<open>caches.open(CACHE_NAME).then((cache) => cache.put(...))\<close>. The handler returns without
  waiting for it: the write is left pending in the world, and a step of its own settles
  it, before or after the next event.
\<close>

subsection \<open>Requests, responses, cache storage\<close>

text \<open>
  A request is its method (\<open>request.method\<close>) and its parsed URL (\<open>new URL(event.request.url)\<close>): origin,
  path and query string. A response is a status and a payload; \<open>response.clone()\<close> is
  the same value again.
\<close>

record request =
  http_method :: string
  origin :: string
  pathname :: string
  search :: string

record response =
  status :: nat
  body :: string

text \<open>
  A cache store maps request keys to the response stored last under the key. The cache
  storage holds the named stores in creation order, as \<open>caches.keys()\<close> lists them.
\<close>

type_synonym cache = "request \<rightharpoonup> response"

type_synonym cache_storage = "(string \<times> cache) list"

datatype effect =
    NetFetch request
  | CachesMatch request
  | CachesOpen string
  | CachesKeys
  | CachesDelete string
  | CachePut string request
  | CacheAddAll string "request list"

datatype failure = NetworkError | TypeError | PutRejected

text \<open>
  A write in flight: \<open>caches.open(n)\<close>, then \<open>put\<close> of the response under the
  request. The world holds the storage, the writes started and not yet settled, and the
  trace.
\<close>

datatype task = OpenThenPut string request response

record world =
  storage :: cache_storage
  pending :: "task list"
  trace :: "effect list"

text \<open>
  What the handlers cannot decide is a parameter: the worker's own origin
  (\<open>self.location.origin\<close>), the network (the reply to the \<open>n\<close>-th fetch since the
  trace began, \<open>None\<close> when the fetch fails) and whether the host accepts a write to a
  store (it refuses one when the quota is exhausted, for instance).
\<close>

record host =
  location_origin :: string
  network :: "nat \<Rightarrow> request \<Rightarrow> response option"
  store_accepts :: "cache_storage \<Rightarrow> request \<Rightarrow> response \<Rightarrow> bool"

subsection \<open>Constants of the worker\<close>

definition CACHE_NAME :: string where
  "CACHE_NAME = ''freqshift-pwa-v1''"

definition APP_SHELL :: "string list" where
  "APP_SHELL =
     [''/'',
      ''/manifest.webmanifest'',
      ''/static/icons/icon-192.png'',
      ''/static/icons/icon-512.png'']"

subsection \<open>Host operations\<close>

definition startsWith :: "string \<Rightarrow> string \<Rightarrow> bool" where
  "startsWith s p = (take (length p) s = p)"

fun is_fetch :: "effect \<Rightarrow> bool" where
  "is_fetch (NetFetch rq) = True"
| "is_fetch e = False"

definition net_calls :: "world \<Rightarrow> nat" where
  "net_calls w = length (filter is_fetch (trace w))"

definition record_effect :: "effect \<Rightarrow> world \<Rightarrow> world" where
  "record_effect e w = w\<lparr>trace := trace w @ [e]\<rparr>"

definition live_reply :: "host \<Rightarrow> nat \<Rightarrow> request \<Rightarrow> failure + response" where
  "live_reply h n rq = (case network h n rq of None \<Rightarrow> Inl NetworkError | Some r \<Rightarrow> Inr r)"

text \<open>\<open>fetch(request)\<close>: one call to the network, rejected when the network fails.\<close>

definition fetch :: "host \<Rightarrow> world \<Rightarrow> request \<Rightarrow> (failure + response) \<times> world" where
  "fetch h w rq = (live_reply h (net_calls w) rq, record_effect (NetFetch rq) w)"

text \<open>
  \<open>cache.match(request)\<close>: the entry stored under the exact key; a request whose
  method is not GET matches nothing.
\<close>

definition cache_match :: "cache \<Rightarrow> request \<Rightarrow> response option" where
  "cache_match c rq = (if http_method rq = ''GET'' then c rq else None)"

text \<open>
  \<open>caches.match(request)\<close> with no store named: the stores are searched in creation
  order and the first match is the answer.
\<close>

fun storage_match :: "cache_storage \<Rightarrow> request \<Rightarrow> response option" where
  "storage_match [] rq = None"
| "storage_match ((n, c) # st) rq =
     (case cache_match c rq of Some r \<Rightarrow> Some r | None \<Rightarrow> storage_match st rq)"

definition caches_match :: "world \<Rightarrow> request \<Rightarrow> response option \<times> world" where
  "caches_match w rq = (storage_match (storage w) rq, record_effect (CachesMatch rq) w)"

text \<open>A lookup in the store of one name (\<open>caches.open(n)\<close>, then \<open>match\<close>).\<close>

definition storage_match_in :: "cache_storage \<Rightarrow> string \<Rightarrow> request \<Rightarrow> response option" where
  "storage_match_in st n rq =
     (case map_of st n of None \<Rightarrow> None | Some c \<Rightarrow> cache_match c rq)"

text \<open>\<open>caches.open(n)\<close> creates the store when no store has the name.\<close>

definition storage_open :: "cache_storage \<Rightarrow> string \<Rightarrow> cache_storage" where
  "storage_open st n = (if n \<in> set (map fst st) then st else st @ [(n, Map.empty)])"

definition caches_open :: "world \<Rightarrow> string \<Rightarrow> world" where
  "caches_open w n = record_effect (CachesOpen n) (w\<lparr>storage := storage_open (storage w) n\<rparr>)"

definition caches_keys :: "world \<Rightarrow> string list \<times> world" where
  "caches_keys w = (map fst (storage w), record_effect CachesKeys w)"

text \<open>\<open>caches.delete(k)\<close> removes the store of that name, entries and all.\<close>

definition caches_delete :: "string \<Rightarrow> world \<Rightarrow> world" where
  "caches_delete k w =
     record_effect (CachesDelete k) (w\<lparr>storage := filter (\<lambda>(n, c). n \<noteq> k) (storage w)\<rparr>)"

definition storage_put :: "cache_storage \<Rightarrow> string \<Rightarrow> request \<Rightarrow> response \<Rightarrow> cache_storage" where
  "storage_put st n rq r = map (\<lambda>(k, c). if k = n then (k, c(rq \<mapsto> r)) else (k, c)) st"

text \<open>
  \<open>cache.put(request, response)\<close> on the store named \<open>n\<close>: rejected for a request
  that is not a GET, for a partial response (status 206) and when the host refuses the
  write; otherwise the entry replaces what the key held.
\<close>

definition cache_put :: "host \<Rightarrow> world \<Rightarrow> string \<Rightarrow> request \<Rightarrow> response \<Rightarrow> (failure + unit) \<times> world" where
  "cache_put h w n rq r =
     (let w1 = record_effect (CachePut n rq) w in
      if http_method rq \<noteq> ''GET'' then (Inl TypeError, w1)
      else if status r = 206 then (Inl TypeError, w1)
      else if \<not> store_accepts h (storage w) rq r then (Inl PutRejected, w1)
      else (Inr (), w1\<lparr>storage := storage_put (storage w) n rq r\<rparr>))"

text \<open>
  A promise that nobody waits for. \<open>detach\<close> starts a write and leaves it pending.
  \<open>settle h i\<close> lets the \<open>i\<close>-th pending write run to its end: the store is opened
  (created when missing), the entry is put, and the outcome of the put is dropped, since
  no handler of the rejection is attached. Writes settle in any order; \<open>settle_last\<close>
  settles the write started last.
\<close>

definition detach :: "task \<Rightarrow> world \<Rightarrow> world" where
  "detach t w = w\<lparr>pending := pending w @ [t]\<rparr>"

fun run_task :: "host \<Rightarrow> task \<Rightarrow> world \<Rightarrow> world" where
  "run_task h (OpenThenPut n rq r) w = snd (cache_put h (caches_open w n) n rq r)"

definition settle :: "host \<Rightarrow> nat \<Rightarrow> world \<Rightarrow> world" where
  "settle h i w =
     (if i < length (pending w)
      then run_task h (pending w ! i) (w\<lparr>pending := take i (pending w) @ drop (Suc i) (pending w)\<rparr>)
      else w)"

definition settle_last :: "host \<Rightarrow> world \<Rightarrow> world" where
  "settle_last h w = settle h (length (pending w) - 1) w"

text \<open>
  \<open>cache.addAll(requests)\<close>: every request is fetched; the call is rejected when a
  fetch fails or a response has no ok status (200 to 299, and not 206), and then nothing
  is stored. Otherwise all entries are written together.
\<close>

fun fetch_all :: "host \<Rightarrow> world \<Rightarrow> request list \<Rightarrow> (failure + response) list \<times> world" where
  "fetch_all h w [] = ([], w)"
| "fetch_all h w (rq # rqs) =
     (case fetch h w rq of (res, w1) \<Rightarrow>
        (case fetch_all h w1 rqs of (ress, w2) \<Rightarrow> (res # ress, w2)))"

definition ok_status :: "response \<Rightarrow> bool" where
  "ok_status r = (200 \<le> status r \<and> status r \<le> 299 \<and> status r \<noteq> 206)"

fun check_all :: "(failure + response) list \<Rightarrow> failure + response list" where
  "check_all [] = Inr []"
| "check_all (Inl e # ress) = Inl TypeError"
| "check_all (Inr r # ress) =
     (if ok_status r
      then (case check_all ress of Inl e \<Rightarrow> Inl e | Inr rs \<Rightarrow> Inr (r # rs))
      else Inl TypeError)"

definition put_all :: "cache_storage \<Rightarrow> string \<Rightarrow> (request \<times> response) list \<Rightarrow> cache_storage" where
  "put_all st n entries = fold (\<lambda>(rq, r) st'. storage_put st' n rq r) entries st"

definition cache_addAll :: "host \<Rightarrow> world \<Rightarrow> string \<Rightarrow> request list \<Rightarrow> (failure + unit) \<times> world" where
  "cache_addAll h w n rqs =
     (case fetch_all h (record_effect (CacheAddAll n rqs) w) rqs of (ress, w1) \<Rightarrow>
        (case check_all ress of
           Inl e \<Rightarrow> (Inl e, w1)
         | Inr rs \<Rightarrow>
             if \<not> list_all (\<lambda>(rq, r). store_accepts h (storage w1) rq r) (zip rqs rs)
             then (Inl PutRejected, w1)
             else (Inr (), w1\<lparr>storage := put_all (storage w1) n (zip rqs rs)\<rparr>)))"

subsection \<open>The three handlers\<close>

text \<open>
  A path of \<open>APP_SHELL\<close> is resolved against the worker's own location: a GET of that
  path on the worker's origin.
\<close>

definition shell_request :: "host \<Rightarrow> string \<Rightarrow> request" where
  "shell_request h p = \<lparr>http_method = ''GET'', origin = location_origin h, pathname = p, search = ''''\<rparr>"

text \<open>\<open>caches.open(CACHE_NAME).then((cache) => cache.addAll(APP_SHELL))\<close>\<close>

definition install_handler :: "host \<Rightarrow> world \<Rightarrow> (failure + unit) \<times> world" where
  "install_handler h w =
     cache_addAll h (caches_open w CACHE_NAME) CACHE_NAME (map (shell_request h) APP_SHELL)"

text \<open>
  \<open>caches.keys().then((keys) => Promise.all(keys.filter((k) => k !== CACHE_NAME)
  .map((k) => caches.delete(k))))\<close>
\<close>

definition activate_handler :: "world \<Rightarrow> world" where
  "activate_handler w =
     (case caches_keys w of (keys, w1) \<Rightarrow>
        fold caches_delete (filter (\<lambda>k. k \<noteq> CACHE_NAME) keys) w1)"

text \<open>
  The fetch handler. A path under \<open>/result/\<close> or \<open>/download/\<close> is answered by the
  network alone. Any other request is looked up with \<open>caches.match\<close>; on a miss it is
  fetched, and for a GET on the worker's origin the write of a copy of the response into
  the store \<open>CACHE_NAME\<close> is started. The handler does not wait for that write: it
  answers with the response at once, and the write stays pending.
\<close>

definition reserved :: "request \<Rightarrow> bool" where
  "reserved rq = (startsWith (pathname rq) ''/result/'' \<or> startsWith (pathname rq) ''/download/'')"

definition fetch_handler :: "host \<Rightarrow> world \<Rightarrow> request \<Rightarrow> (failure + response) \<times> world" where
  "fetch_handler h w rq =
     (if reserved rq then fetch h w rq
      else
        (case caches_match w rq of
           (Some cached, w1) \<Rightarrow> (Inr cached, w1)
         | (None, w1) \<Rightarrow>
             (case fetch h w1 rq of
                (Inl e, w2) \<Rightarrow> (Inl e, w2)
              | (Inr resp, w2) \<Rightarrow>
                  if http_method rq = ''GET'' \<and> origin rq = location_origin h
                  then (Inr resp, detach (OpenThenPut CACHE_NAME rq resp) w2)
                  else (Inr resp, w2))))"

subsection \<open>Concrete scenarios\<close>

text \<open>
  A host whose network answers the first fetch with payload \<open>P1\<close> and every later
  one with \<open>P2\<close>, and which accepts every write; a world in which only the current
  store exists, empty, and no write is pending.
\<close>

definition demo_origin :: string where
  "demo_origin = ''https://freqshift.example''"

definition rotating_network :: "nat \<Rightarrow> request \<Rightarrow> response option" where
  "rotating_network n rq = Some \<lparr>status = 200, body = (if n = 0 then ''P1'' else ''P2'')\<rparr>"

definition demo_host :: host where
  "demo_host = \<lparr>location_origin = demo_origin, network = rotating_network,
                 store_accepts = (\<lambda>st rq r. True)\<rparr>"

definition get_request :: "string \<Rightarrow> string \<Rightarrow> request" where
  "get_request og p = \<lparr>http_method = ''GET'', origin = og, pathname = p, search = ''''\<rparr>"

definition fresh_world :: world where
  "fresh_world = \<lparr>storage = [(CACHE_NAME, Map.empty)], pending = [], trace = []\<rparr>"

text \<open>
  A host whose third fetch fails, a host whose network answers 404 to everything, a host
  whose network answers with partial responses (status 206), and a host that refuses every
  write.
\<close>

definition flaky_network :: "nat \<Rightarrow> request \<Rightarrow> response option" where
  "flaky_network n rq = (if n = 2 then None else Some \<lparr>status = 200, body = ''P1''\<rparr>)"

definition flaky_host :: host where
  "flaky_host = \<lparr>location_origin = demo_origin, network = flaky_network,
                  store_accepts = (\<lambda>st rq r. True)\<rparr>"






text \<open>
  Worlds for the store generations: one with an older store beside the current one, one
  where the older store holds the key \<open>/\<close> and the current store is empty, and one
  where the current store is the only store and holds the key.
\<close>

definition two_generations_world :: world where
  "two_generations_world =
     \<lparr>storage = [(''freqshift-pwa-v0'', Map.empty), (CACHE_NAME, Map.empty)], pending = [], trace = []\<rparr>"

definition stale_hit_world :: world where
  "stale_hit_world =
     \<lparr>storage = [(''freqshift-pwa-v0'', [get_request demo_origin ''/'' \<mapsto> \<lparr>status = 200, body = ''old''\<rparr>]),
                 (CACHE_NAME, Map.empty)],
      pending = [], trace = []\<rparr>"

definition warm_world :: world where
  "warm_world =
     \<lparr>storage = [(CACHE_NAME, [get_request demo_origin ''/'' \<mapsto> \<lparr>status = 200, body = ''shell''\<rparr>])],
      pending = [], trace = []\<rparr>"

section \<open>Properties\<close>

subsection \<open>The host operations\<close>

lemmas demo_defs = demo_origin_def rotating_network_def demo_host_def get_request_def
  fresh_world_def reserved_def startsWith_def CACHE_NAME_def live_reply_def net_calls_def

lemma storage_record_effect: "storage (record_effect e w) = storage w"
  by (simp add: record_effect_def)

lemma trace_record_effect: "trace (record_effect e w) = trace w @ [e]"
  by (simp add: record_effect_def)

lemma net_calls_record_effect:
  "net_calls (record_effect e w) = (if is_fetch e then Suc (net_calls w) else net_calls w)"
  by (simp add: record_effect_def net_calls_def)

lemma net_calls_storage_update: "net_calls (w\<lparr>storage := st\<rparr>) = net_calls w"
  by (simp add: net_calls_def)


lemma pending_record_effect: "pending (record_effect e w) = pending w"
  by (simp add: record_effect_def)


lemma fetch_reserved:
  assumes "reserved rq"
  shows "fetch_handler h w rq = (live_reply h (net_calls w) rq, record_effect (NetFetch rq) w)"
  using assms by (simp add: fetch_handler_def fetch_def)

lemma storage_fold_delete:
  "storage (fold caches_delete ks w) = filter (\<lambda>(n, c). n \<notin> set ks) (storage w)"
proof (induction ks arbitrary: w)
  case Nil
  show ?case by simp
next
  case (Cons k ks)
  have "storage (caches_delete k w) = filter (\<lambda>(n, c). n \<noteq> k) (storage w)"
    by (simp add: caches_delete_def storage_record_effect)
  with Cons show ?case
    by (auto simp: filter_filter case_prod_unfold intro: filter_cong)
qed

lemma storage_activate:
  "storage (activate_handler w) = filter (\<lambda>(n, c). n = CACHE_NAME) (storage w)"
proof -
  have "storage (activate_handler w) =
          filter (\<lambda>(n, c). n \<notin> set (filter (\<lambda>k. k \<noteq> CACHE_NAME) (map fst (storage w)))) (storage w)"
    by (simp add: activate_handler_def caches_keys_def storage_fold_delete storage_record_effect)
  also have "\<dots> = filter (\<lambda>(n, c). n = CACHE_NAME) (storage w)"
    by (rule filter_cong) force+
  finally show ?thesis .
qed


lemma storage_match_in_put:
  assumes "n \<in> set (map fst st)" and "http_method rq = ''GET''"
  shows "storage_match_in (storage_put st n rq r) n rq = Some r"
  using assms
  by (induction st) (auto simp: storage_put_def storage_match_in_def cache_match_def)


lemma open_has_name: "n \<in> set (map fst (storage_open st n))"
  by (simp add: storage_open_def)

lemma fetch_all_Cons:
  "fetch_all h w (rq # rqs) =
     (live_reply h (net_calls w) rq # fst (fetch_all h (record_effect (NetFetch rq) w) rqs),
      snd (fetch_all h (record_effect (NetFetch rq) w) rqs))"
  by (simp add: fetch_def case_prod_unfold)

lemma fetch_all_length: "length (fst (fetch_all h w rqs)) = length rqs"
  by (induction rqs arbitrary: w) (simp_all add: fetch_all_Cons del: fetch_all.simps(2))

lemma fetch_all_storage: "storage (snd (fetch_all h w rqs)) = storage w"
  by (induction rqs arbitrary: w)
     (simp_all add: fetch_all_Cons storage_record_effect del: fetch_all.simps(2))

lemma fetch_all_net_calls: "net_calls (snd (fetch_all h w rqs)) = net_calls w + length rqs"
  by (induction rqs arbitrary: w)
     (simp_all add: fetch_all_Cons net_calls_record_effect del: fetch_all.simps(2))

lemma fetch_all_nth:
  "i < length rqs \<Longrightarrow> fst (fetch_all h w rqs) ! i = live_reply h (net_calls w + i) (rqs ! i)"
proof (induction rqs arbitrary: w i)
  case Nil
  then show ?case by simp
next
  case (Cons rq rqs)
  show ?case
  proof (cases i)
    case 0
    then show ?thesis by (simp add: fetch_all_Cons del: fetch_all.simps(2))
  next
    case (Suc j)
    with Cons.prems have "j < length rqs" by simp
    from Cons.IH [OF this, of "record_effect (NetFetch rq) w"] Suc show ?thesis
      by (simp add: fetch_all_Cons net_calls_record_effect del: fetch_all.simps(2))
  qed
qed

lemma check_all_Inl:
  "i < length ress \<Longrightarrow> ress ! i = Inl e \<Longrightarrow> check_all ress = Inl TypeError"
proof (induction ress arbitrary: i rule: check_all.induct)
  case 1
  then show ?case by simp
next
  case (2 e' ress)
  show ?case by simp
next
  case (3 r ress)
  then show ?case
    by (cases i) (auto split: sum.splits)
qed

lemma check_all_failure: "check_all ress = Inl e \<Longrightarrow> e = TypeError"
  by (induction ress arbitrary: e rule: check_all.induct) (auto split: if_splits sum.splits)

lemma check_all_length: "check_all ress = Inr rs \<Longrightarrow> length rs = length ress"
  by (induction ress arbitrary: rs rule: check_all.induct) (auto split: if_splits sum.splits)

lemma put_all_names: "map fst (put_all st n entries) = map fst st"
proof (induction entries arbitrary: st)
  case Nil
  show ?case by (simp add: put_all_def)
next
  case (Cons a entries)
  have "map fst (storage_put st n rq r) = map fst st" for rq r
    by (induction st) (auto simp: storage_put_def)
  with Cons show ?case by (cases a) (simp add: put_all_def)
qed

lemma storage_match_in_put_other:
  "rq' \<noteq> rq \<Longrightarrow> storage_match_in (storage_put st n rq r) n rq' = storage_match_in st n rq'"
  by (induction st) (auto simp: storage_put_def storage_match_in_def cache_match_def)

lemma put_all_stored:
  assumes "n \<in> set (map fst st)" and "rq \<in> fst ` set entries" and "http_method rq = ''GET''"
  shows "\<exists>r. storage_match_in (put_all st n entries) n rq = Some r"
  using assms
proof (induction entries arbitrary: st rule: rev_induct)
  case Nil
  then show ?case by simp
next
  case (snoc a entries)
  obtain rq' r' where a: "a = (rq', r')" by (cases a)
  have names: "n \<in> set (map fst (put_all st n entries))"
    using snoc.prems(1) by (simp add: put_all_names)
  have step: "put_all st n (entries @ [a]) = storage_put (put_all st n entries) n rq' r'"
    by (simp add: put_all_def a)
  show ?case
  proof (cases "rq = rq'")
    case True
    with names snoc.prems(3) step show ?thesis
      by (simp add: storage_match_in_put)
  next
    case False
    with snoc.prems(2) a have "rq \<in> fst ` set entries" by auto
    from snoc.IH [OF snoc.prems(1) this snoc.prems(3)] False step show ?thesis
      by (simp add: storage_match_in_put_other)
  qed
qed

subsection \<open>The paths of the fetch handler\<close>

lemma net_calls_caches_open: "net_calls (caches_open w n) = net_calls w"
  by (simp add: caches_open_def net_calls_record_effect net_calls_storage_update)

lemma storage_caches_open: "storage (caches_open w n) = storage_open (storage w) n"
  by (simp add: caches_open_def storage_record_effect)

lemma fetch_hit:
  assumes "\<not> reserved rq" and "storage_match (storage w) rq = Some r"
  shows "fetch_handler h w rq = (Inr r, record_effect (CachesMatch rq) w)"
  using assms by (simp add: fetch_handler_def caches_match_def)

lemma fetch_miss_failed:
  assumes "\<not> reserved rq" and "storage_match (storage w) rq = None"
    and "network h (net_calls w) rq = None"
  shows "fetch_handler h w rq =
           (Inl NetworkError, record_effect (NetFetch rq) (record_effect (CachesMatch rq) w))"
  using assms
  by (simp add: fetch_handler_def caches_match_def fetch_def live_reply_def net_calls_record_effect)


lemma fetch_miss_not_stored:
  assumes "\<not> reserved rq" and "storage_match (storage w) rq = None"
    and "network h (net_calls w) rq = Some r"
    and "http_method rq \<noteq> ''GET'' \<or> origin rq \<noteq> location_origin h"
  shows "fetch_handler h w rq =
           (Inr r, record_effect (NetFetch rq) (record_effect (CachesMatch rq) w))"
  using assms
  by (auto simp: fetch_handler_def caches_match_def fetch_def live_reply_def net_calls_record_effect)











lemmas install_defs = install_handler_def cache_addAll_def APP_SHELL_def shell_request_def
  fetch_def caches_open_def storage_open_def record_effect_def put_all_def storage_put_def
  ok_status_def storage_match_in_def cache_match_def

lemma filter_name_distinct:
  "distinct (map fst st) \<Longrightarrow>
     filter (\<lambda>(n, c). n = k) st = (case map_of st k of None \<Rightarrow> [] | Some c \<Rightarrow> [(k, c)])"
proof (induction st)
  case Nil
  show ?case by simp
next
  case (Cons a st)
  obtain n c where a: "a = (n, c)" by (cases a)
  show ?case
  proof (cases "n = k")
    case True
    with Cons.prems a have "k \<notin> fst ` set st" by simp
    then have "filter (\<lambda>(n, c). n = k) st = []"
      by (force simp: filter_empty_conv)
    with True a show ?thesis by simp
  next
    case False
    with Cons a show ?thesis by simp
  qed
qed

lemma names_filter_name:
  assumes "k \<in> set (map fst st)"
  shows "set (map fst (filter (\<lambda>(n, c). n = k) st)) = {k}"
proof
  show "set (map fst (filter (\<lambda>(n, c). n = k) st)) \<subseteq> {k}"
    by auto
  from assms obtain c where "(k, c) \<in> set st"
    by auto
  then have "(k, c) \<in> set (filter (\<lambda>(n, c). n = k) st)"
    by simp
  then have "fst (k, c) \<in> set (map fst (filter (\<lambda>(n, c). n = k) st))"
    unfolding set_map by (rule imageI)
  then show "{k} \<subseteq> set (map fst (filter (\<lambda>(n, c). n = k) st))"
    by simp
qed

lemma map_of_filter_name: "map_of (filter (\<lambda>(n, c). n = k) st) k = map_of st k"
  by (induction st) auto

lemma storage_match_in_open:
  "storage_match_in (storage_open st n) n' rq = storage_match_in st n' rq"
proof (cases "n \<in> set (map fst st)")
  case True
  then show ?thesis by (simp add: storage_open_def)
next
  case False
  then have none: "map_of st n = None"
    by (simp add: map_of_eq_None_iff)
  have "map_of (st @ [(n, Map.empty)]) n' = (case map_of st n' of None \<Rightarrow> (if n' = n then Some Map.empty else None) | Some c \<Rightarrow> Some c)"
    by (simp add: map_add_def split: option.splits)
  with False none show ?thesis
    by (auto simp: storage_open_def storage_match_in_def cache_match_def split: option.splits)
qed

lemma cache_addAll_rejected:
  assumes "check_all (fst (fetch_all h (record_effect (CacheAddAll n rqs) w) rqs)) = Inl e"
  shows "fst (cache_addAll h w n rqs) = Inl e"
  using assms by (simp add: cache_addAll_def case_prod_unfold)

lemma cache_addAll_failure_storage:
  assumes "fst (cache_addAll h w n rqs) = Inl e"
  shows "storage (snd (cache_addAll h w n rqs)) = storage w"
  using assms
  by (auto simp: cache_addAll_def case_prod_unfold fetch_all_storage storage_record_effect
      split: sum.splits if_splits)

lemma cache_addAll_success_storage:
  assumes "fst (cache_addAll h w n rqs) = Inr ()"
  shows "\<exists>rs. length rs = length rqs \<and>
           storage (snd (cache_addAll h w n rqs)) = put_all (storage w) n (zip rqs rs)"
  using assms
  by (auto simp: cache_addAll_def case_prod_unfold fetch_all_storage storage_record_effect
      fetch_all_length dest!: check_all_length split: sum.splits if_splits)

lemma install_failure_storage:
  assumes "fst (install_handler h w) = Inl e"
  shows "storage (snd (install_handler h w)) = storage_open (storage w) CACHE_NAME"
  using cache_addAll_failure_storage
      [of h "caches_open w CACHE_NAME" CACHE_NAME "map (shell_request h) APP_SHELL" e] assms
  by (simp add: install_handler_def storage_caches_open)

lemma install_success_storage:
  assumes "fst (install_handler h w) = Inr ()"
  shows "\<exists>rs. length rs = length APP_SHELL \<and>
           storage (snd (install_handler h w)) =
             put_all (storage_open (storage w) CACHE_NAME) CACHE_NAME
               (zip (map (shell_request h) APP_SHELL) rs)"
  using cache_addAll_success_storage
      [of h "caches_open w CACHE_NAME" CACHE_NAME "map (shell_request h) APP_SHELL"] assms
  by (simp add: install_handler_def storage_caches_open)

lemma install_creates_current:
  "CACHE_NAME \<in> set (map fst (storage (snd (install_handler h w))))"
proof (cases "fst (install_handler h w)")
  case (Inl e)
  from install_failure_storage [OF this] show ?thesis
    by (simp only: open_has_name)
next
  case (Inr u)
  then have "fst (install_handler h w) = Inr ()" by simp
  from install_success_storage [OF this] obtain rs where
    "storage (snd (install_handler h w)) =
       put_all (storage_open (storage w) CACHE_NAME) CACHE_NAME
         (zip (map (shell_request h) APP_SHELL) rs)"
    by blast
  then show ?thesis
    by (simp only: put_all_names open_has_name)
qed

lemma storage_match_sole:
  "map fst st = [n] \<Longrightarrow> storage_match st rq = storage_match_in st n rq"
  by (cases st) (auto simp: storage_match_in_def split: option.splits)

lemma storage_match_source:
  "storage_match st rq = Some r \<Longrightarrow> \<exists>n c. (n, c) \<in> set st \<and> cache_match c rq = Some r"
  by (induction st) (fastforce split: option.splits)+

lemma fetch_miss_reply:
  assumes "\<not> reserved rq" and "storage_match (storage w) rq = None"
  shows "fst (fetch_handler h w rq) = live_reply h (net_calls w) rq"
  using assms
  by (simp add: fetch_handler_def caches_match_def fetch_def net_calls_record_effect
      split: sum.splits)

subsection \<open>Reserved prefixes bypass the cache\<close>

text \<open>
  C1. A request whose path starts with \<open>/result/\<close> or \<open>/download/\<close> is answered by
  a live network fetch. The handler adds exactly one effect to the trace, the fetch
  itself: no store is read, none is written, no write is started, the cache storage is
  unchanged. A second request for the same URL is answered by the next network reply, not
  by the first one.
\<close>

theorem fetch_reserved_is_live:
  assumes "reserved rq"
  shows "fst (fetch_handler h w rq) = live_reply h (net_calls w) rq
       \<and> storage (snd (fetch_handler h w rq)) = storage w
       \<and> pending (snd (fetch_handler h w rq)) = pending w
       \<and> trace (snd (fetch_handler h w rq)) = trace w @ [NetFetch rq]
       \<and> fst (fetch_handler h (snd (fetch_handler h w rq)) rq) =
           live_reply h (Suc (net_calls w)) rq"
  using assms
  by (simp add: fetch_reserved net_calls_record_effect storage_record_effect trace_record_effect
      pending_record_effect)

theorem fetch_reserved_is_live_witness:
  "reserved (get_request demo_origin ''/result/abc123'')
   \<and> fst (fetch_handler demo_host fresh_world (get_request demo_origin ''/result/abc123'')) =
       Inr \<lparr>status = 200, body = ''P1''\<rparr>
   \<and> storage (snd (fetch_handler demo_host fresh_world (get_request demo_origin ''/result/abc123''))) =
       storage fresh_world
   \<and> fst (fetch_handler demo_host
            (snd (fetch_handler demo_host fresh_world (get_request demo_origin ''/result/abc123'')))
            (get_request demo_origin ''/result/abc123'')) =
       Inr \<lparr>status = 200, body = ''P2''\<rparr>"
proof -
  let ?rq = "get_request demo_origin ''/result/abc123''"
  have res: "reserved ?rq"
    by (simp add: demo_defs)
  have r1: "live_reply demo_host (net_calls fresh_world) ?rq = Inr \<lparr>status = 200, body = ''P1''\<rparr>"
    by (simp add: demo_defs)
  have r2: "live_reply demo_host (Suc (net_calls fresh_world)) ?rq =
      Inr \<lparr>status = 200, body = ''P2''\<rparr>"
    by (simp add: demo_defs)
  from fetch_reserved_is_live [OF res, of demo_host fresh_world] res show ?thesis
    unfolding r1 r2 by blast
qed

subsection \<open>A miss starts a write; once it has settled the next request is a hit\<close>




subsection \<open>Activation removes every store but the current one\<close>

text \<open>
  C3. When the current generation's store exists as activation starts, exactly one
  generation exists after it, the current one: every store of another name has been
  deleted (the names that remain are \<open>CACHE_NAME\<close> alone), the current store remains with
  its entries, and with the distinct names the host keeps it is one store. The current
  store always exists after the install handler has run, which opens it before anything
  else: install followed by activation leaves the current generation alone, whatever
  stores existed before and whatever the network did.
\<close>

theorem activate_leaves_only_current:
  "(CACHE_NAME \<in> set (map fst (storage w)) \<longrightarrow>
      set (map fst (storage (activate_handler w))) = {CACHE_NAME}
      \<and> map_of (storage (activate_handler w)) CACHE_NAME = map_of (storage w) CACHE_NAME
      \<and> (distinct (map fst (storage w)) \<longrightarrow> length (storage (activate_handler w)) = 1))
   \<and> set (map fst (storage (activate_handler (snd (install_handler h w))))) = {CACHE_NAME}"
proof (intro conjI impI)
  assume cur: "CACHE_NAME \<in> set (map fst (storage w))"
  then show "set (map fst (storage (activate_handler w))) = {CACHE_NAME}"
    unfolding storage_activate by (rule names_filter_name)
  show "map_of (storage (activate_handler w)) CACHE_NAME = map_of (storage w) CACHE_NAME"
    by (simp add: storage_activate map_of_filter_name)
  assume "distinct (map fst (storage w))"
  moreover from cur obtain c where "map_of (storage w) CACHE_NAME = Some c"
    by (cases "map_of (storage w) CACHE_NAME") (auto simp: map_of_eq_None_iff)
  ultimately show "length (storage (activate_handler w)) = 1"
    by (simp add: storage_activate filter_name_distinct)
next
  have "CACHE_NAME \<in> set (map fst (storage (snd (install_handler h w))))"
    by (rule install_creates_current)
  then show "set (map fst (storage (activate_handler (snd (install_handler h w))))) = {CACHE_NAME}"
    unfolding storage_activate by (rule names_filter_name)
qed

theorem activate_leaves_only_current_witness:
  "CACHE_NAME \<in> set (map fst (storage two_generations_world))
   \<and> distinct (map fst (storage two_generations_world))
   \<and> map fst (storage (activate_handler two_generations_world)) = [CACHE_NAME]
   \<and> set (map fst (storage (activate_handler two_generations_world))) = {CACHE_NAME}
   \<and> length (storage (activate_handler two_generations_world)) = 1
   \<and> map_of (storage (activate_handler two_generations_world)) CACHE_NAME = Some Map.empty"
proof -
  have c: "CACHE_NAME \<in> set (map fst (storage two_generations_world))"
    by (simp add: two_generations_world_def)
  have d: "distinct (map fst (storage two_generations_world))"
    by (simp add: two_generations_world_def CACHE_NAME_def)
  have m: "map_of (storage two_generations_world) CACHE_NAME = Some Map.empty"
    by (simp add: two_generations_world_def CACHE_NAME_def)
  have l: "map fst (storage (activate_handler two_generations_world)) = [CACHE_NAME]"
    by (simp add: storage_activate two_generations_world_def CACHE_NAME_def)
  from activate_leaves_only_current [of two_generations_world demo_host] c d m l show ?thesis
    by simp
qed

text \<open>
  C9. Activation is idempotent on the cache storage: a second run leaves the storage as
  the first run left it. When no store but the current one exists, a run changes nothing
  and deletes nothing: its only effect is the call of \<open>caches.keys()\<close>.
\<close>

theorem activate_idempotent:
  "storage (activate_handler (activate_handler w)) = storage (activate_handler w)
   \<and> ((\<forall>k \<in> set (map fst (storage w)). k = CACHE_NAME) \<longrightarrow>
        storage (activate_handler w) = storage w
        \<and> trace (activate_handler w) = trace w @ [CachesKeys])"
proof
  show "storage (activate_handler (activate_handler w)) = storage (activate_handler w)"
    by (simp add: storage_activate)
  show "(\<forall>k \<in> set (map fst (storage w)). k = CACHE_NAME) \<longrightarrow>
        storage (activate_handler w) = storage w
        \<and> trace (activate_handler w) = trace w @ [CachesKeys]"
  proof
    assume only: "\<forall>k \<in> set (map fst (storage w)). k = CACHE_NAME"
    then have "filter (\<lambda>k. k \<noteq> CACHE_NAME) (map fst (storage w)) = []"
      by (simp add: filter_empty_conv)
    then have "trace (activate_handler w) = trace w @ [CachesKeys]"
      by (simp add: activate_handler_def caches_keys_def trace_record_effect)
    moreover from only have "storage (activate_handler w) = storage w"
      by (auto simp: storage_activate filter_id_conv)
    ultimately show "storage (activate_handler w) = storage w
        \<and> trace (activate_handler w) = trace w @ [CachesKeys]"
      by simp
  qed
qed

theorem activate_idempotent_witness:
  "map fst (storage fresh_world) = [CACHE_NAME]
   \<and> storage (activate_handler fresh_world) = storage fresh_world
   \<and> trace (activate_handler fresh_world) = [CachesKeys]
   \<and> storage (activate_handler (activate_handler fresh_world)) = storage fresh_world"
proof -
  have n: "map fst (storage fresh_world) = [CACHE_NAME]"
    by (simp add: fresh_world_def)
  then have h: "\<forall>k \<in> set (map fst (storage fresh_world)). k = CACHE_NAME"
    by simp
  have t: "trace fresh_world = []"
    by (simp add: fresh_world_def)
  from activate_idempotent [of fresh_world] h n t show ?thesis
    by simp
qed

subsection \<open>Installation fills the current store, all or nothing\<close>

text \<open>
  C4. After a successful install, the lookup of each path of \<open>APP_SHELL\<close> (as a GET on
  the worker's origin) in the store \<open>CACHE_NAME\<close> finds a stored response.
\<close>

theorem install_caches_shell:
  assumes "fst (install_handler h w) = Inr ()"
  shows "\<forall>p \<in> set APP_SHELL. \<exists>r.
           storage_match_in (storage (snd (install_handler h w))) CACHE_NAME (shell_request h p) = Some r"
proof
  fix p assume p: "p \<in> set APP_SHELL"
  from install_success_storage [OF assms] obtain rs where
    len: "length rs = length APP_SHELL" and
    st: "storage (snd (install_handler h w)) =
           put_all (storage_open (storage w) CACHE_NAME) CACHE_NAME
             (zip (map (shell_request h) APP_SHELL) rs)"
    by blast
  from len have "fst ` set (zip (map (shell_request h) APP_SHELL) rs) = set (map (shell_request h) APP_SHELL)"
    by (metis length_map map_fst_zip set_map)
  with p have mem: "shell_request h p \<in> fst ` set (zip (map (shell_request h) APP_SHELL) rs)"
    by simp
  have get: "http_method (shell_request h p) = ''GET''"
    by (simp add: shell_request_def)
  show "\<exists>r. storage_match_in (storage (snd (install_handler h w))) CACHE_NAME (shell_request h p) = Some r"
    unfolding st by (rule put_all_stored [OF open_has_name mem get])
qed

theorem install_caches_shell_witness:
  "fst (install_handler demo_host fresh_world) = Inr ()
   \<and> storage_match_in (storage (snd (install_handler demo_host fresh_world))) CACHE_NAME
        (shell_request demo_host ''/'') = Some \<lparr>status = 200, body = ''P1''\<rparr>
   \<and> storage_match_in (storage (snd (install_handler demo_host fresh_world))) CACHE_NAME
        (shell_request demo_host ''/manifest.webmanifest'') = Some \<lparr>status = 200, body = ''P2''\<rparr>
   \<and> storage_match_in (storage (snd (install_handler demo_host fresh_world))) CACHE_NAME
        (shell_request demo_host ''/static/icons/icon-192.png'') = Some \<lparr>status = 200, body = ''P2''\<rparr>
   \<and> storage_match_in (storage (snd (install_handler demo_host fresh_world))) CACHE_NAME
        (shell_request demo_host ''/static/icons/icon-512.png'') = Some \<lparr>status = 200, body = ''P2''\<rparr>"
proof -
  have ok: "fst (install_handler demo_host fresh_world) = Inr ()"
    by (simp add: install_defs demo_defs)
  have vals:
    "storage_match_in (storage (snd (install_handler demo_host fresh_world))) CACHE_NAME
        (shell_request demo_host ''/'') = Some \<lparr>status = 200, body = ''P1''\<rparr>"
    "storage_match_in (storage (snd (install_handler demo_host fresh_world))) CACHE_NAME
        (shell_request demo_host ''/manifest.webmanifest'') = Some \<lparr>status = 200, body = ''P2''\<rparr>"
    "storage_match_in (storage (snd (install_handler demo_host fresh_world))) CACHE_NAME
        (shell_request demo_host ''/static/icons/icon-192.png'') = Some \<lparr>status = 200, body = ''P2''\<rparr>"
    "storage_match_in (storage (snd (install_handler demo_host fresh_world))) CACHE_NAME
        (shell_request demo_host ''/static/icons/icon-512.png'') = Some \<lparr>status = 200, body = ''P2''\<rparr>"
    by (simp_all add: install_defs demo_defs)
  from install_caches_shell [OF ok] ok vals show ?thesis
    by blast
qed

text \<open>
  C5. When the fetch of any one path of \<open>APP_SHELL\<close> fails, the install fails with the
  \<open>TypeError\<close> of \<open>addAll\<close>, and nothing is committed: the cache storage is what
  opening the store \<open>CACHE_NAME\<close> made of it, and every lookup in that store answers as
  it did before the install.
\<close>

theorem install_all_or_nothing:
  assumes "i < length APP_SHELL"
    and "network h (net_calls w + i) (shell_request h (APP_SHELL ! i)) = None"
  shows "fst (install_handler h w) = Inl TypeError
       \<and> storage (snd (install_handler h w)) = storage_open (storage w) CACHE_NAME
       \<and> (\<forall>rq. storage_match_in (storage (snd (install_handler h w))) CACHE_NAME rq =
                storage_match_in (storage w) CACHE_NAME rq)"
proof -
  let ?rqs = "map (shell_request h) APP_SHELL"
  let ?w1 = "record_effect (CacheAddAll CACHE_NAME ?rqs) (caches_open w CACHE_NAME)"
  have n1: "net_calls ?w1 = net_calls w"
    by (simp add: net_calls_record_effect net_calls_caches_open)
  from assms(1) have i: "i < length ?rqs" by simp
  have "fst (fetch_all h ?w1 ?rqs) ! i = live_reply h (net_calls w + i) (?rqs ! i)"
    using fetch_all_nth [OF i, of h ?w1] n1 by simp
  also have "\<dots> = Inl NetworkError"
    using assms by (simp add: live_reply_def)
  finally have bad: "fst (fetch_all h ?w1 ?rqs) ! i = Inl NetworkError" .
  have "i < length (fst (fetch_all h ?w1 ?rqs))"
    using i by (simp add: fetch_all_length)
  from check_all_Inl [OF this bad] have failed: "fst (install_handler h w) = Inl TypeError"
    unfolding install_handler_def by (rule cache_addAll_rejected)
  from install_failure_storage [OF failed] have
    st: "storage (snd (install_handler h w)) = storage_open (storage w) CACHE_NAME" .
  from failed st show ?thesis
    by (simp add: storage_match_in_open)
qed

theorem install_all_or_nothing_witness:
  "2 < length APP_SHELL
   \<and> network flaky_host (net_calls fresh_world + 2) (shell_request flaky_host (APP_SHELL ! 2)) = None
   \<and> fst (install_handler flaky_host fresh_world) = Inl TypeError
   \<and> storage (snd (install_handler flaky_host fresh_world)) = storage fresh_world"
proof -
  have i: "2 < length APP_SHELL" by (simp add: APP_SHELL_def)
  have n: "network flaky_host (net_calls fresh_world + 2) (shell_request flaky_host (APP_SHELL ! 2)) = None"
    by (simp add: flaky_host_def flaky_network_def fresh_world_def net_calls_def)
  have o: "storage_open (storage fresh_world) CACHE_NAME = storage fresh_world"
    by (simp add: storage_open_def fresh_world_def)
  from install_all_or_nothing [OF i n] i n o show ?thesis
    by simp
qed

subsection \<open>Which store answers a lookup\<close>

text \<open>
  C6 says that a cached response is only ever served from the store \<open>CACHE_NAME\<close>.
  The handler calls \<open>caches.match\<close> without naming a store, which searches every store
  of the origin. Here the key \<open>/\<close> is held by an older store only: the handler serves
  that entry without a network fetch, although the current store has no entry for the
  key.
\<close>

theorem fetch_served_from_stale_store_counterexample:
  "\<not> reserved (get_request demo_origin ''/'')
   \<and> fst (fetch_handler demo_host stale_hit_world (get_request demo_origin ''/'')) =
        Inr \<lparr>status = 200, body = ''old''\<rparr>
   \<and> net_calls (snd (fetch_handler demo_host stale_hit_world (get_request demo_origin ''/''))) = 0
   \<and> storage_match_in (storage stale_hit_world) CACHE_NAME (get_request demo_origin ''/'') = None"
  by (simp add: demo_defs stale_hit_world_def fetch_handler_def caches_match_def cache_match_def
      record_effect_def storage_match_in_def)

text \<open>
  C6, amended. For a request outside the reserved prefixes the lookup is by exact request
  key over all existing stores in creation order. On a hit the handler answers with the
  first match and touches nothing else; the response comes from some existing store, and
  from the store \<open>CACHE_NAME\<close> when that is the only store.
\<close>

theorem fetch_lookup_first_store:
  assumes "\<not> reserved rq" and "storage_match (storage w) rq = Some r"
  shows "fetch_handler h w rq = (Inr r, record_effect (CachesMatch rq) w)
       \<and> (\<exists>n c. (n, c) \<in> set (storage w) \<and> cache_match c rq = Some r)
       \<and> (map fst (storage w) = [CACHE_NAME] \<longrightarrow>
            storage_match_in (storage w) CACHE_NAME rq = Some r)"
  using assms storage_match_sole [of "storage w" CACHE_NAME rq]
  by (simp add: fetch_hit storage_match_source)

theorem fetch_lookup_first_store_witness:
  "\<not> reserved (get_request demo_origin ''/'')
   \<and> storage_match (storage warm_world) (get_request demo_origin ''/'') =
        Some \<lparr>status = 200, body = ''shell''\<rparr>
   \<and> map fst (storage warm_world) = [CACHE_NAME]
   \<and> fst (fetch_handler demo_host warm_world (get_request demo_origin ''/'')) =
        Inr \<lparr>status = 200, body = ''shell''\<rparr>
   \<and> net_calls (snd (fetch_handler demo_host warm_world (get_request demo_origin ''/''))) = 0
   \<and> storage_match_in (storage warm_world) CACHE_NAME (get_request demo_origin ''/'') =
        Some \<lparr>status = 200, body = ''shell''\<rparr>"
proof -
  let ?rq = "get_request demo_origin ''/''"
  have h1: "\<not> reserved ?rq" by (simp add: demo_defs)
  have h2: "storage_match (storage warm_world) ?rq = Some \<lparr>status = 200, body = ''shell''\<rparr>"
    by (simp add: warm_world_def cache_match_def get_request_def)
  have h3: "map fst (storage warm_world) = [CACHE_NAME]" by (simp add: warm_world_def)
  have n0: "net_calls (record_effect (CachesMatch ?rq) warm_world) = 0"
    by (simp add: net_calls_record_effect) (simp add: net_calls_def warm_world_def)
  from fetch_lookup_first_store [OF h1 h2, of demo_host] h1 h2 h3 n0 show ?thesis
    by simp
qed

subsection \<open>What a miss stores\<close>

text \<open>
  C7. On a miss outside the reserved prefixes, a request that is not a GET or not on the
  worker's origin is answered by the network (one fetch); the cache storage is left
  exactly as it was and no write is started.
\<close>

theorem fetch_miss_not_cached:
  assumes "\<not> reserved rq" and "storage_match (storage w) rq = None"
    and "http_method rq \<noteq> ''GET'' \<or> origin rq \<noteq> location_origin h"
  shows "fst (fetch_handler h w rq) = live_reply h (net_calls w) rq
       \<and> storage (snd (fetch_handler h w rq)) = storage w
       \<and> pending (snd (fetch_handler h w rq)) = pending w
       \<and> net_calls (snd (fetch_handler h w rq)) = Suc (net_calls w)"
  using assms
  by (auto simp: fetch_handler_def caches_match_def fetch_def net_calls_record_effect
      storage_record_effect pending_record_effect split: sum.splits)

theorem fetch_miss_not_cached_witness:
  "\<not> reserved (get_request ''https://cdn.example'' ''/lib.js'')
   \<and> storage_match (storage fresh_world) (get_request ''https://cdn.example'' ''/lib.js'') = None
   \<and> origin (get_request ''https://cdn.example'' ''/lib.js'') \<noteq> location_origin demo_host
   \<and> fst (fetch_handler demo_host fresh_world (get_request ''https://cdn.example'' ''/lib.js'')) =
        Inr \<lparr>status = 200, body = ''P1''\<rparr>
   \<and> storage (snd (fetch_handler demo_host fresh_world (get_request ''https://cdn.example'' ''/lib.js''))) =
        storage fresh_world"
proof -
  let ?rq = "get_request ''https://cdn.example'' ''/lib.js''"
  have h1: "\<not> reserved ?rq" by (simp add: demo_defs)
  have h2: "storage_match (storage fresh_world) ?rq = None"
    by (simp add: fresh_world_def cache_match_def)
  have h3: "origin ?rq \<noteq> location_origin demo_host" by (simp add: demo_defs)
  have r: "live_reply demo_host (net_calls fresh_world) ?rq = Inr \<lparr>status = 200, body = ''P1''\<rparr>"
    by (simp add: demo_defs)
  from fetch_miss_not_cached [OF h1 h2 disjI2, OF h3] h1 h2 h3 r show ?thesis
    by simp
qed

text \<open>
  C8. On a miss of a same-origin GET outside the reserved prefixes the handler answers
  with the live network reply whatever the host does with the write: the answer does not
  depend on \<open>store_accepts\<close>. In the scenario below the host refuses every write; the
  caller still gets the response, and when the write has settled the store has no entry.
\<close>

theorem put_failure_not_fatal:
  assumes "\<not> reserved rq" and "http_method rq = ''GET''" and "origin rq = location_origin h"
    and "storage_match (storage w) rq = None"
  shows "fst (fetch_handler (h\<lparr>store_accepts := acc\<rparr>) w rq) = live_reply h (net_calls w) rq"
  using assms by (simp add: fetch_miss_reply live_reply_def)

theorem put_failure_not_fatal_witness:
  "\<not> reserved (get_request demo_origin ''/static/app.js'')
   \<and> http_method (get_request demo_origin ''/static/app.js'') = ''GET''
   \<and> origin (get_request demo_origin ''/static/app.js'') = location_origin demo_host
   \<and> storage_match (storage fresh_world) (get_request demo_origin ''/static/app.js'') = None
   \<and> fst (fetch_handler (demo_host\<lparr>store_accepts := (\<lambda>st rq r. False)\<rparr>) fresh_world
            (get_request demo_origin ''/static/app.js'')) = Inr \<lparr>status = 200, body = ''P1''\<rparr>
   \<and> storage_match_in
        (storage (settle_last (demo_host\<lparr>store_accepts := (\<lambda>st rq r. False)\<rparr>)
           (snd (fetch_handler (demo_host\<lparr>store_accepts := (\<lambda>st rq r. False)\<rparr>) fresh_world
              (get_request demo_origin ''/static/app.js'')))))
        CACHE_NAME (get_request demo_origin ''/static/app.js'') = None"
proof -
  let ?rq = "get_request demo_origin ''/static/app.js''"
  have h1: "\<not> reserved ?rq" by (simp add: demo_defs)
  have h2: "http_method ?rq = ''GET''" by (simp add: demo_defs)
  have h3: "origin ?rq = location_origin demo_host" by (simp add: demo_defs)
  have h4: "storage_match (storage fresh_world) ?rq = None"
    by (simp add: fresh_world_def cache_match_def)
  have r: "live_reply demo_host (net_calls fresh_world) ?rq = Inr \<lparr>status = 200, body = ''P1''\<rparr>"
    by (simp add: demo_defs)
  have unstored: "storage_match_in
        (storage (settle_last (demo_host\<lparr>store_accepts := (\<lambda>st rq r. False)\<rparr>)
           (snd (fetch_handler (demo_host\<lparr>store_accepts := (\<lambda>st rq r. False)\<rparr>) fresh_world ?rq))))
        CACHE_NAME ?rq = None"
    by (simp add: demo_defs fetch_handler_def caches_match_def cache_match_def fetch_def
        record_effect_def caches_open_def storage_open_def cache_put_def storage_match_in_def
        detach_def settle_last_def settle_def)
  from put_failure_not_fatal [OF h1 h2 h3 h4, of "\<lambda>st rq r. False"] h1 h2 h3 h4 r unstored
  show ?thesis by simp
qed




end
